theory Spec2Isabelle
  imports Main
begin

section \<open>Python string operations used by the filter\<close>

text \<open>
  A Python \<open>str\<close> is modelled as a \<^typ>\<open>string\<close> whose characters are the code points
  below 256. On that range \<open>str.isspace\<close> holds for the twelve code points
  0x09-0x0D, 0x1C-0x20, 0x85 and 0xA0, and \<open>str.lower\<close> adds 32 to the code points
  of \<open>A\<close>-\<open>Z\<close> and of 0xC0-0xDE other than 0xD7, leaving every other one unchanged.
\<close>

definition isspace :: "char \<Rightarrow> bool" where
  "isspace c =
     (let n = (of_char c :: nat)
      in (9 \<le> n \<and> n \<le> 13) \<or> (28 \<le> n \<and> n \<le> 32) \<or> n = 133 \<or> n = 160)"

definition lower_char :: "char \<Rightarrow> char" where
  "lower_char c =
     (let n = (of_char c :: nat)
      in if (65 \<le> n \<and> n \<le> 90) \<or> (192 \<le> n \<and> n \<le> 222 \<and> n \<noteq> 215)
         then char_of (n + 32) else c)"

text \<open>\<open>s.lower()\<close>\<close>

definition py_lower :: "string \<Rightarrow> string" where
  "py_lower s = map lower_char s"

text \<open>Removing from both ends the characters that satisfy \<open>P\<close>: the common core of
  \<open>s.strip()\<close> and \<open>s.strip(chars)\<close>.\<close>

definition strip_by :: "(char \<Rightarrow> bool) \<Rightarrow> string \<Rightarrow> string" where
  "strip_by P s = rev (dropWhile P (rev (dropWhile P s)))"

text \<open>\<open>s.strip()\<close>\<close>

definition py_strip :: "string \<Rightarrow> string" where
  "py_strip s = strip_by isspace s"

text \<open>\<open>s.strip(chars)\<close>\<close>

definition py_strip_chars :: "string \<Rightarrow> string \<Rightarrow> string" where
  "py_strip_chars chars s = strip_by (\<lambda>c. c \<in> set chars) s"

text \<open>\<open>s.split()\<close>: maximal runs of non-whitespace characters; \<open>cur\<close> is the word being
  read.\<close>

fun split_ws :: "string \<Rightarrow> string \<Rightarrow> string list" where
  "split_ws cur [] = (if cur = [] then [] else [cur])"
| "split_ws cur (c # cs) =
     (if isspace c then (if cur = [] then split_ws [] cs else cur # split_ws [] cs)
      else split_ws (cur @ [c]) cs)"

definition py_split :: "string \<Rightarrow> string list" where
  "py_split s = split_ws [] s"

text \<open>\<open>s.split(sep)\<close> for a one-character separator: empty fields are kept, and the empty
  string gives one empty field.\<close>

fun split_sep :: "char \<Rightarrow> string \<Rightarrow> string \<Rightarrow> string list" where
  "split_sep sep cur [] = [cur]"
| "split_sep sep cur (c # cs) =
     (if c = sep then cur # split_sep sep [] cs else split_sep sep (cur @ [c]) cs)"

definition py_split_on :: "char \<Rightarrow> string \<Rightarrow> string list" where
  "py_split_on sep s = split_sep sep [] s"

section \<open>The filter and its vocabulary\<close>

text \<open>Exceptions: the \<open>AttributeError\<close> of a missing attribute, the \<open>TypeError\<close> of a call
  with arguments that the callee does not take, and any other subclass of \<open>Exception\<close> that
  host code raises.\<close>

datatype exn = AttributeError | TypeError | OtherException string

text \<open>Handlers are function objects. \<open>Host n\<close> is a handler of the host; \<open>Wrapper a orig\<close>
  is the closure that \<open>attach_to_activity\<close> builds for the activity \<open>a\<close> around \<open>orig\<close>.\<close>

datatype handler = Host nat | Wrapper nat handler

record FillerFilter =
  ignored_words :: "string list"
  orig_handler_map :: "nat \<rightharpoonup> handler"

text \<open>The method \<open>_init_\<close>, called by name on a new object: it assigns both attributes; the
  argument \<open>None\<close> stands for the omitted word list. The class defines no \<open>__init__\<close>, so
  this method is not what \<open>FillerFilter(...)\<close> runs.\<close>

definition init :: "string list option \<Rightarrow> FillerFilter" where
  "init iw =
     (let ws = (case iw of None \<Rightarrow> [] | Some l \<Rightarrow> l)
      in \<lparr>ignored_words = [py_lower (py_strip w). w \<leftarrow> ws, w \<noteq> []],
          orig_handler_map = Map.empty\<rparr>)"

text \<open>The built-in word list of \<open>from_env\<close>, the concatenation of the five literals of the
  source.\<close>

definition default_raw :: string where
  "default_raw =
     ''uh,umm,hmm,err,ah,like,you know,'' @
     ''mm,mhm,mmm,,,,'' @
     ''[noise],[background],[inaudible],'' @
     ''[laugh],[cough],[breath],'' @
     ''<noise>,<silence>,<background>''"

definition default_env_var :: string where
  "default_env_var = ''LIVEKIT_IGNORED_WORDS''"

text \<open>The call \<open>FillerFilter(ws)\<close>, which \<open>from_env\<close> makes as \<open>cls(parts)\<close>. The class
  defines \<open>_init_\<close> and neither \<open>__init__\<close> nor \<open>__new__\<close>, so a call with an argument
  raises \<open>TypeError\<close>, whatever the argument.\<close>

definition construct :: "string list \<Rightarrow> exn + FillerFilter" where
  "construct ws = Inl TypeError"

text \<open>The list \<open>parts\<close> that \<open>from_env\<close> computes; \<open>environ\<close> is \<open>os.environ\<close>.\<close>

definition from_env_parts :: "(string \<rightharpoonup> string) \<Rightarrow> string \<Rightarrow> string list" where
  "from_env_parts environ env_var =
     (let raw = (case environ env_var of None \<Rightarrow> [] | Some v \<Rightarrow> v);
          raw = (if raw = [] then default_raw else raw)
      in [py_lower (py_strip p). p \<leftarrow> py_split_on CHR '','' raw, py_strip p \<noteq> []])"

text \<open>\<open>FillerFilter.from_env\<close>: the list \<open>parts\<close>, then \<open>cls(parts)\<close>.\<close>

definition from_env :: "(string \<rightharpoonup> string) \<Rightarrow> string \<Rightarrow> exn + FillerFilter" where
  "from_env environ env_var = construct (from_env_parts environ env_var)"

definition set_ignored_words :: "FillerFilter \<Rightarrow> string list \<Rightarrow> FillerFilter" where
  "set_ignored_words f ws = f\<lparr>ignored_words := [py_lower (py_strip w). w \<leftarrow> ws, w \<noteq> []]\<rparr>"

text \<open>The punctuation that the wrapper strips from tokens and vocabulary entries:
  \<open>. , ! ? " ' ( ) [ ] < >\<close>.\<close>

definition punct :: string where
  "punct = ''.,!?'' @ [CHR 0x22, CHR 0x27] @ ''()[]<>''"

text \<open>The wrapper's local function \<open>_norm\<close>.\<close>

definition norm_word :: "string \<Rightarrow> string" where
  "norm_word s = py_strip_chars punct (py_lower (py_strip s))"

text \<open>The normalisation of one token, \<open>t.lower().strip(...)\<close>.\<close>

definition norm_token :: "string \<Rightarrow> string" where
  "norm_token t = py_strip_chars punct (py_lower t)"

definition ignored_set :: "FillerFilter \<Rightarrow> string set" where
  "ignored_set f = set (map norm_word (ignored_words f))"

section \<open>Events, sessions and activities\<close>

text \<open>The values an event's \<open>transcript\<close> attribute may hold.\<close>

datatype pyval = PyNone | PyStr string | PyInt int

text \<open>A transcript event; \<open>transcript = None\<close> is an event without the attribute.\<close>

record event =
  transcript :: "pyval option"
  is_final :: bool
  item_id :: "string option"

text \<open>The session of an activity. \<open>agent_state = None\<close> is a session whose attribute is
  missing or \<open>None\<close>; \<open>emit_raises\<close> is the exception that \<open>emit\<close> raises, if any.\<close>

record session =
  agent_state :: "string option"
  emit_raises :: "exn option"

text \<open>An activity. \<open>session = None\<close> is an activity whose \<open>_session\<close> is missing or \<open>None\<close>;
  \<open>handler_attr\<close> is its attribute \<open>_on_input_audio_transcription_completed\<close>, \<open>None\<close> when
  the activity has no such attribute.\<close>

record activity =
  session :: "session option"
  handler_attr :: "handler option"

text \<open>What the wrapper does to its surroundings, in order: the three logger calls, the
  call of the session's \<open>emit\<close> and the call of the original handler.\<close>

datatype effect =
    LogInfo string
  | LogDebug
  | LogException exn
  | Emit string
  | CallOrig event

datatype decision = Forward | Suppress

record 'r outcome =
  effects :: "effect list"
  result :: "exn + 'r option"

section \<open>The wrapper\<close>

text \<open>\<open>ev.transcript or ""\<close>\<close>

definition transcript_text :: "event \<Rightarrow> exn + pyval" where
  "transcript_text ev =
     (case transcript ev of
        None \<Rightarrow> Inl AttributeError
      | Some PyNone \<Rightarrow> Inr (PyStr [])
      | Some (PyStr s) \<Rightarrow> Inr (PyStr s)
      | Some (PyInt n) \<Rightarrow> Inr (if n = 0 then PyStr [] else PyInt n))"

text \<open>The first two conjuncts of the wrapper's condition.\<close>

definition speaking :: "activity \<Rightarrow> bool" where
  "speaking a =
     (case session a of None \<Rightarrow> False | Some s \<Rightarrow> agent_state s = Some ''speaking'')"

text \<open>The words the wrapper normalises. \<open>split_words\<close> is the outcome of the inner
  \<open>try\<close> block around the project's tokenizer: \<open>Some ts\<close> when the import succeeds and the
  call yields the strings \<open>ts\<close>, \<open>None\<close> when anything there raises, in which case the
  wrapper falls back to \<open>transcript_text.split()\<close>.\<close>

definition raw_tokens :: "(string \<Rightarrow> string list option) \<Rightarrow> string \<Rightarrow> string list" where
  "raw_tokens split_words text =
     (case split_words text of Some ts \<Rightarrow> ts | None \<Rightarrow> py_split text)"

definition tokens_of :: "(string \<Rightarrow> string list option) \<Rightarrow> string \<Rightarrow> string list" where
  "tokens_of split_words text = map norm_token (raw_tokens split_words text)"

text \<open>The inner \<open>try\<close> block around \<open>emit\<close>.\<close>

definition emit_false_interruption :: "activity \<Rightarrow> effect list" where
  "emit_false_interruption a =
     (case session a of
        None \<Rightarrow> []
      | Some s \<Rightarrow>
          (case emit_raises s of
             None \<Rightarrow> [Emit ''agent_false_interruption'']
           | Some e \<Rightarrow> [Emit ''agent_false_interruption'', LogDebug]))"

text \<open>The body of the wrapper's outer \<open>try\<close>: \<open>Inl e\<close> when it raises \<open>e\<close>, otherwise its
  effects and whether it left through the \<open>return\<close> of the filler branch.\<close>

definition try_body ::
  "FillerFilter \<Rightarrow> activity \<Rightarrow> (string \<Rightarrow> string list option) \<Rightarrow> event
     \<Rightarrow> exn + (effect list \<times> bool)" where
  "try_body f a split_words ev =
     (case transcript_text ev of
        Inl e \<Rightarrow> Inl e
      | Inr v \<Rightarrow>
          if \<not> speaking a then Inr ([], False)
          else (case v of
                  PyStr t \<Rightarrow>
                    if py_strip t = [] then Inr ([], False)
                    else if ignored_words f = [] then Inr ([], False)
                    else (let tokens = tokens_of split_words t
                          in if tokens \<noteq> [] \<and> list_all (\<lambda>tok. tok \<in> ignored_set f) tokens
                             then Inr (LogInfo t # emit_false_interruption a, True)
                             else Inr ([], False))
                | _ \<Rightarrow> Inl AttributeError))"

text \<open>The wrapper that \<open>attach_to_activity\<close> installs; \<open>orig\<close> is the behaviour of the
  original handler.\<close>

definition wrapper ::
  "FillerFilter \<Rightarrow> activity \<Rightarrow> (string \<Rightarrow> string list option) \<Rightarrow> (event \<Rightarrow> exn + 'r)
     \<Rightarrow> event \<Rightarrow> 'r outcome" where
  "wrapper f a split_words orig ev =
     (case try_body f a split_words ev of
        Inl e \<Rightarrow>
          \<lparr>effects = [LogException e, CallOrig ev], result = map_sum id Some (orig ev)\<rparr>
      | Inr (effs, returned) \<Rightarrow>
          if returned then \<lparr>effects = effs, result = Inr None\<rparr>
          else \<lparr>effects = effs @ [CallOrig ev], result = map_sum id Some (orig ev)\<rparr>)"

text \<open>The decision an outcome shows: Forward when the original handler was called.\<close>

fun is_call_orig :: "effect \<Rightarrow> bool" where
  "is_call_orig (CallOrig ev) = True"
| "is_call_orig _ = False"

definition decision_of :: "'r outcome \<Rightarrow> decision" where
  "decision_of out = (if list_ex is_call_orig (effects out) then Forward else Suppress)"

text \<open>How often an outcome called \<open>emit("agent_false_interruption")\<close>.\<close>

definition notifications :: "'r outcome \<Rightarrow> nat" where
  "notifications out = count_list (effects out) (Emit ''agent_false_interruption'')"

section \<open>Attaching and detaching\<close>

text \<open>The filter together with the activities it can be attached to, each activity known
  by its identity.\<close>

record world =
  the_filter :: FillerFilter
  activities :: "nat \<Rightarrow> activity"

definition attach_to_activity :: "world \<Rightarrow> nat \<Rightarrow> exn + world" where
  "attach_to_activity w a =
     (case orig_handler_map (the_filter w) a of
        Some _ \<Rightarrow> Inr w
      | None \<Rightarrow>
          (case handler_attr (activities w a) of
             None \<Rightarrow> Inl AttributeError
           | Some orig \<Rightarrow>
               Inr \<lparr>the_filter = (the_filter w)
                      \<lparr>orig_handler_map := (orig_handler_map (the_filter w))(a \<mapsto> orig)\<rparr>,
                    activities = (activities w)
                      (a := (activities w a)\<lparr>handler_attr := Some (Wrapper a orig)\<rparr>)\<rparr>))"

definition detach_from_activity :: "world \<Rightarrow> nat \<Rightarrow> world" where
  "detach_from_activity w a =
     (case orig_handler_map (the_filter w) a of
        None \<Rightarrow> w
      | Some orig \<Rightarrow>
          \<lparr>the_filter = (the_filter w)
             \<lparr>orig_handler_map := (orig_handler_map (the_filter w))(a := None)\<rparr>,
           activities = (activities w)
             (a := (activities w a)\<lparr>handler_attr := Some orig\<rparr>)\<rparr>)"

section \<open>The fixtures of the tests\<close>

text \<open>\<open>FakeSession\<close>, \<open>FakeActivity\<close> and \<open>Ev\<close> of the repository's tests: a session whose
  \<open>emit\<close> returns, an activity with a handler of its own, a final event without an item
  id. \<open>default_filter\<close> holds the vocabulary the tests expect of \<open>from_env()\<close>: the
  built-in list, assigned by \<open>_init_\<close>. \<open>no_split_words\<close> is the tokenizer that cannot be
  imported, as in the tests, and \<open>forwarded\<close> an original handler that returns.\<close>

definition fake_session :: "string \<Rightarrow> session" where
  "fake_session st = \<lparr>agent_state = Some st, emit_raises = None\<rparr>"

definition fake_activity :: "string \<Rightarrow> activity" where
  "fake_activity st = \<lparr>session = Some (fake_session st), handler_attr = Some (Host 0)\<rparr>"

definition Ev :: "string \<Rightarrow> event" where
  "Ev t = \<lparr>transcript = Some (PyStr t), is_final = True, item_id = None\<rparr>"

definition default_filter :: FillerFilter where
  "default_filter = init (Some (from_env_parts Map.empty default_env_var))"

definition no_split_words :: "string \<Rightarrow> string list option" where
  "no_split_words text = None"

definition forwarded :: "event \<Rightarrow> exn + unit" where
  "forwarded ev = Inr ()"

section \<open>Facts about the string operations\<close>

lemma isspace_lower_char: "isspace (lower_char c) = isspace c"
  by (auto simp: isspace_def lower_char_def Let_def)

lemma lower_char_idem: "lower_char (lower_char c) = lower_char c"
  by (auto simp: lower_char_def Let_def)

lemma py_lower_idem: "py_lower (py_lower s) = py_lower s"
  by (simp add: py_lower_def lower_char_idem)

lemma dropWhile_keep: "ys \<noteq> [] \<Longrightarrow> \<not> P (hd ys) \<Longrightarrow> dropWhile P ys = ys"
  by (cases ys) auto

lemma set_strip_by: "set (strip_by P s) \<subseteq> set s"
proof -
  have "set (dropWhile P (rev (dropWhile P s))) \<subseteq> set (rev (dropWhile P s))"
    by (rule set_dropWhileD[THEN subsetI]) 
  also have "\<dots> \<subseteq> set s"
    using set_dropWhileD[of _ P s] by auto
  finally show ?thesis by (simp add: strip_by_def)
qed

lemma strip_by_Nil_iff: "strip_by P s = [] \<longleftrightarrow> (\<forall>c\<in>set s. P c)"
proof (cases "dropWhile P s")
  case Nil
  then have "\<forall>c\<in>set s. P c" by (metis dropWhile_eq_Nil_conv)
  then show ?thesis unfolding strip_by_def Nil by simp
next
  case (Cons x xs)
  then have nx: "\<not> P x" using hd_dropWhile[of P s] by auto 
  have "x \<in> set s" using Cons set_dropWhileD[of x P s] by simp
  with nx have rhs: "\<not> (\<forall>c\<in>set s. P c)" by blast
  have "x \<in> set (rev (dropWhile P s))" using Cons by simp
  with nx have "dropWhile P (rev (dropWhile P s)) \<noteq> []"
    by (metis dropWhile_eq_Nil_conv)
  then have "strip_by P s \<noteq> []"
    unfolding strip_by_def by (simp only: rev_is_Nil_conv not_False_eq_True)
  with rhs show ?thesis by blast
qed

lemma strip_by_id: "s = [] \<or> (\<not> P (hd s) \<and> \<not> P (last s)) \<Longrightarrow> strip_by P s = s"
proof (cases s)
  case Nil
  then show ?thesis by (simp add: strip_by_def)
next
  case (Cons x xs)
  assume "s = [] \<or> (\<not> P (hd s) \<and> \<not> P (last s))"
  with Cons have h: "\<not> P x" and l: "\<not> P (last (x # xs))" by auto
  have "rev (x # xs) \<noteq> []" and "\<not> P (hd (rev (x # xs)))"
    using l by (simp_all add: hd_rev del: rev.simps)
  then have "dropWhile P (rev (x # xs)) = rev (x # xs)"
    by (rule dropWhile_keep)
  with h Cons show ?thesis by (simp add: strip_by_def)
qed

lemma strip_by_ends:
  assumes "strip_by P s \<noteq> []"
  shows "\<not> P (hd (strip_by P s)) \<and> \<not> P (last (strip_by P s))"
proof -
  let ?d = "dropWhile P s"
  let ?e = "dropWhile P (rev ?d)"
  from assms have e: "?e \<noteq> []" by (simp add: strip_by_def)
  have d: "?d \<noteq> []"
  proof
    assume "?d = []"
    then have "?e = []" by (simp only: rev.simps dropWhile.simps)
    with e show False by contradiction
  qed
  have l: "\<not> P (hd ?e)" using e hd_dropWhile by blast
  have hd_d: "\<not> P (hd ?d)" using d hd_dropWhile by blast
  have "rev ?d = rev (tl ?d) @ [hd ?d]" using d by (cases ?d) auto
  then have "?e = dropWhile P (rev (tl ?d)) @ [hd ?d]"
    using hd_d by (simp add: dropWhile_append3)
  then have "last ?e = hd ?d" by (metis last_snoc)
  with hd_d l e show ?thesis by (simp add: strip_by_def hd_rev last_rev)
qed

lemma strip_by_idem: "strip_by P (strip_by P s) = strip_by P s"
  using strip_by_ends[of P s] by (intro strip_by_id) blast

lemma strip_by_map: "strip_by P (map f s) = map f (strip_by (P \<circ> f) s)"
  by (simp add: strip_by_def dropWhile_map rev_map)

lemma strip_by_no_match: "\<forall>c\<in>set s. \<not> P c \<Longrightarrow> strip_by P s = s"
  by (rule strip_by_id) (cases s, auto)

lemma split_ws_Nil_iff: "split_ws cur s = [] \<longleftrightarrow> cur = [] \<and> (\<forall>c\<in>set s. isspace c)"
  by (induction s arbitrary: cur) auto

lemma py_split_Nil_iff: "py_split s = [] \<longleftrightarrow> py_strip s = []"
  by (simp add: py_split_def py_strip_def split_ws_Nil_iff strip_by_Nil_iff)

lemma split_ws_no_space:
  "\<forall>c\<in>set cur. \<not> isspace c \<Longrightarrow> \<forall>t\<in>set (split_ws cur s). \<forall>c\<in>set t. \<not> isspace c"
proof (induction s arbitrary: cur)
  case Nil
  then show ?case by simp
next
  case (Cons a s)
  show ?case
  proof (cases "isspace a")
    case True
    with Cons.IH[of "[]"] Cons.prems show ?thesis by simp
  next
    case False
    with Cons.IH[of "cur @ [a]"] Cons.prems show ?thesis by simp
  qed
qed

lemma py_split_no_space: "t \<in> set (py_split s) \<Longrightarrow> \<forall>c\<in>set t. \<not> isspace c"
  using split_ws_no_space[of "[]" s] by (simp add: py_split_def)

lemma py_strip_no_space: "\<forall>c\<in>set s. \<not> isspace c \<Longrightarrow> py_strip s = s"
  by (simp add: py_strip_def strip_by_no_match)

lemma py_strip_idem: "py_strip (py_strip s) = py_strip s"
  by (simp add: py_strip_def strip_by_idem)

lemma py_strip_lower: "py_strip (py_lower s) = py_lower (py_strip s)"
proof -
  have "isspace \<circ> lower_char = isspace"
    by (rule ext) (simp add: isspace_lower_char)
  then show ?thesis
    by (simp add: py_strip_def py_lower_def strip_by_map)
qed

lemma py_lower_Nil_iff: "py_lower s = [] \<longleftrightarrow> s = []"
  by (simp add: py_lower_def)

lemma py_lower_fixed: "\<forall>c\<in>set s. lower_char c = c \<Longrightarrow> py_lower s = s"
  by (simp add: py_lower_def map_idI)

lemma norm_token_idem: "norm_token (norm_token t) = norm_token t"
proof -
  let ?n = "norm_token t"
  have "set ?n \<subseteq> set (py_lower t)"
    by (simp add: norm_token_def py_strip_chars_def set_strip_by)
  then have "\<forall>c\<in>set ?n. lower_char c = c"
    by (auto simp: py_lower_def lower_char_idem)
  then have "py_lower ?n = ?n" by (rule py_lower_fixed)
  then have "norm_token ?n = py_strip_chars punct ?n"
    by (simp add: norm_token_def)
  also have "\<dots> = ?n"
    by (simp add: norm_token_def py_strip_chars_def strip_by_idem)
  finally show ?thesis .
qed

lemma norm_word_no_space:
  assumes "\<forall>c\<in>set s. \<not> isspace c"
  shows "norm_word s = norm_token s" and "\<forall>c\<in>set (norm_token s). \<not> isspace c"
proof -
  show "norm_word s = norm_token s"
    using assms by (simp add: norm_word_def norm_token_def py_strip_no_space)
  have "set (norm_token s) \<subseteq> set (py_lower s)"
    by (simp add: norm_token_def py_strip_chars_def set_strip_by)
  then show "\<forall>c\<in>set (norm_token s). \<not> isspace c"
    using assms by (auto simp: py_lower_def isspace_lower_char)
qed

lemma norm_word_lower_strip: "norm_word (py_lower (py_strip w)) = norm_word w"
  by (simp add: norm_word_def py_strip_lower py_strip_idem py_lower_idem)

lemma norm_word_blank: "py_strip w = [] \<Longrightarrow> norm_word w = []"
  by (simp add: norm_word_def py_lower_def py_strip_chars_def strip_by_def)

section \<open>Normalisation\<close>

text \<open>
  C5, as stated, at a concrete input: \<open>_norm\<close> trims whitespace before it strips the
  punctuation, so on \<open>"( uh )"\<close> the first pass yields \<open>" uh "\<close> and a second pass yields
  \<open>"uh"\<close>: normalising an already-normalised string changes it.
\<close>

theorem norm_word_not_idempotent:
  "norm_word (norm_word ''( uh )'') \<noteq> norm_word ''( uh )''"
  by code_simp

text \<open>
  C5, amended: \<open>_norm\<close> is idempotent on every string that holds no whitespace character,
  hence on every token of the whitespace split; the normalisation of tokens (lowercase,
  then strip the punctuation) is idempotent on every string; and \<open>"[noise]"\<close> and
  \<open>"noise"\<close> normalise to the same string.
\<close>

theorem norm_word_idempotent_on_tokens:
  "((\<forall>c\<in>set s. \<not> isspace c) \<longrightarrow> norm_word (norm_word s) = norm_word s)
   \<and> (\<forall>t\<in>set (py_split s). norm_word (norm_word t) = norm_word t)
   \<and> norm_token (norm_token s) = norm_token s
   \<and> norm_word ''[noise]'' = norm_word ''noise''"
proof -
  have tok: "norm_word (norm_word t) = norm_word t" if "\<forall>c\<in>set t. \<not> isspace c" for t
    using norm_word_no_space[OF that] norm_word_no_space(1)[of "norm_token t"]
    by (simp add: norm_token_idem)
  have "norm_word ''[noise]'' = norm_word ''noise''"
    by code_simp
  then show ?thesis
    using tok py_split_no_space norm_token_idem by blast
qed

theorem norm_word_idempotent_on_tokens_witness:
  "list_all (\<lambda>c. \<not> isspace c) ''[Noise]''
   \<and> norm_word (norm_word ''[Noise]'') = norm_word ''[Noise]''
   \<and> norm_word ''[Noise]'' = ''noise''
   \<and> py_split ''Umm, [Noise]'' = [''Umm,'', ''[Noise]'']
   \<and> norm_word (norm_word ''Umm,'') = norm_word ''Umm,''"
proof -
  have a: "list_all (\<lambda>c. \<not> isspace c) ''[Noise]''" by code_simp
  have b: "norm_word ''[Noise]'' = ''noise''" by code_simp
  have c: "py_split ''Umm, [Noise]'' = [''Umm,'', ''[Noise]'']" by code_simp
  show ?thesis
    using a b c norm_word_idempotent_on_tokens[of "''[Noise]''"]
      norm_word_idempotent_on_tokens[of "''Umm, [Noise]''"]
    by (simp add: list_all_iff)
qed

section \<open>Facts about the vocabulary\<close>

lemma stored_words_nonempty:
  "filter (\<lambda>w. w \<noteq> []) [py_lower (py_strip w). w \<leftarrow> ws, w \<noteq> []] =
   map (\<lambda>w. py_lower (py_strip w)) (filter (\<lambda>w. py_strip w \<noteq> []) ws)"
proof (induction ws)
  case Nil
  then show ?case by simp
next
  case (Cons w ws)
  have "py_strip [] = []" by (simp add: py_strip_def strip_by_def)
  with Cons show ?case by (auto simp: py_lower_Nil_iff)
qed

section \<open>The decision of the wrapper\<close>

lemma py_strip_Nil_iff: "py_strip t = [] \<longleftrightarrow> list_all isspace t"
  by (simp add: py_strip_def strip_by_Nil_iff list_all_iff)

lemma forwarded_outcome:
  "try_body f a sw ev = Inr ([], False) \<Longrightarrow>
   wrapper f a sw orig ev = \<lparr>effects = [CallOrig ev], result = map_sum id Some (orig ev)\<rparr>"
  by (simp add: wrapper_def)

lemma raised_outcome:
  "try_body f a sw ev = Inl e \<Longrightarrow>
   wrapper f a sw orig ev =
     \<lparr>effects = [LogException e, CallOrig ev], result = map_sum id Some (orig ev)\<rparr>"
  by (simp add: wrapper_def)

lemma suppressed_outcome:
  "try_body f a sw ev = Inr (effs, True) \<Longrightarrow>
   wrapper f a sw orig ev = \<lparr>effects = effs, result = Inr None\<rparr>"
  by (simp add: wrapper_def)

lemma try_body_str:
  "transcript ev = Some (PyStr t) \<Longrightarrow>
   try_body f a sw ev =
     (if speaking a \<and> py_strip t \<noteq> [] \<and> ignored_words f \<noteq> [] \<and> tokens_of sw t \<noteq> []
         \<and> list_all (\<lambda>tok. tok \<in> ignored_set f) (tokens_of sw t)
      then Inr (LogInfo t # emit_false_interruption a, True)
      else Inr ([], False))"
  by (simp add: try_body_def transcript_text_def Let_def)

lemma try_body_cases:
  "(\<exists>e. try_body f a sw ev = Inl e) \<or> try_body f a sw ev = Inr ([], False)
   \<or> (speaking a \<and> (\<exists>t. try_body f a sw ev = Inr (LogInfo t # emit_false_interruption a, True)))"
  by (auto simp: try_body_def transcript_text_def Let_def split: option.splits pyval.splits)

lemma try_body_not_speaking:
  "\<not> speaking a \<Longrightarrow>
   try_body f a sw ev = (if transcript ev = None then Inl AttributeError else Inr ([], False))"
  by (auto simp: try_body_def transcript_text_def split: option.splits pyval.splits)

lemma try_body_empty_vocab:
  "ignored_words f = [] \<Longrightarrow> (\<exists>e. try_body f a sw ev = Inl e) \<or> try_body f a sw ev = Inr ([], False)"
  by (auto simp: try_body_def transcript_text_def Let_def split: option.splits pyval.splits)

lemma empty_vocab_forward:
  "ignored_words f = [] \<Longrightarrow> decision_of (wrapper f a sw orig ev) = Forward"
  using try_body_empty_vocab[of f a sw ev]
  by (auto simp: decision_of_def forwarded_outcome raised_outcome)

lemma emit_count:
  "speaking a \<Longrightarrow>
   count_list (LogInfo t # emit_false_interruption a) (Emit ''agent_false_interruption'') = 1
   \<and> \<not> list_ex is_call_orig (LogInfo t # emit_false_interruption a)"
  by (auto simp: speaking_def emit_false_interruption_def split: option.splits)

text \<open>
  C1: while the agent is speaking and the vocabulary is non-empty, a transcript whose
  whitespace tokens are at least one and all normalise into the normalised vocabulary set is
  suppressed: the wrapper logs, notifies and returns without calling the original handler.
  A transcript with a token that does not normalise into the set is forwarded: the
  original handler is called with the event. The tokens are those of the whitespace split,
  which the wrapper uses whenever the project's tokenizer is unavailable or raises.
\<close>

theorem wrapper_all_fillers_suppress:
  assumes "speaking a" and "ignored_words f \<noteq> []" and "transcript ev = Some (PyStr t)"
    and "raw_tokens sw t = py_split t"
  shows "(py_split t \<noteq> [] \<and> list_all (\<lambda>tok. norm_token tok \<in> ignored_set f) (py_split t) \<longrightarrow>
            decision_of (wrapper f a sw orig ev) = Suppress
            \<and> effects (wrapper f a sw orig ev) = LogInfo t # emit_false_interruption a
            \<and> result (wrapper f a sw orig ev) = Inr None)
         \<and> (list_ex (\<lambda>tok. norm_token tok \<notin> ignored_set f) (py_split t) \<longrightarrow>
            decision_of (wrapper f a sw orig ev) = Forward
            \<and> effects (wrapper f a sw orig ev) = [CallOrig ev]
            \<and> result (wrapper f a sw orig ev) = map_sum id Some (orig ev))"
proof -
  have toks: "tokens_of sw t = map norm_token (py_split t)"
    using assms(4) by (simp add: tokens_of_def)
  have all: "list_all (\<lambda>tok. tok \<in> ignored_set f) (tokens_of sw t) =
             list_all (\<lambda>tok. norm_token tok \<in> ignored_set f) (py_split t)"
    by (simp add: toks list_all_iff)
  have ex: "list_ex (\<lambda>tok. norm_token tok \<notin> ignored_set f) (py_split t) =
            (\<not> list_all (\<lambda>tok. norm_token tok \<in> ignored_set f) (py_split t))"
    by (simp add: list_all_iff list_ex_iff)
  show ?thesis
  proof (cases "py_split t \<noteq> [] \<and> list_all (\<lambda>tok. norm_token tok \<in> ignored_set f) (py_split t)")
    case True
    then have "py_strip t \<noteq> []" by (simp add: py_split_Nil_iff)
    with True assms all toks
    have "try_body f a sw ev = Inr (LogInfo t # emit_false_interruption a, True)"
      by (simp add: try_body_str)
    then have "wrapper f a sw orig ev =
        \<lparr>effects = LogInfo t # emit_false_interruption a, result = Inr None\<rparr>"
      by (rule suppressed_outcome)
    with True ex emit_count[OF assms(1), of t] show ?thesis
      by (simp add: decision_of_def)
  next
    case False
    with assms all toks have "try_body f a sw ev = Inr ([], False)"
      by (auto simp: try_body_str)
    then have "wrapper f a sw orig ev =
        \<lparr>effects = [CallOrig ev], result = map_sum id Some (orig ev)\<rparr>"
      by (rule forwarded_outcome)
    with False ex show ?thesis
      by (auto simp: decision_of_def)
  qed
qed

theorem wrapper_all_fillers_suppress_witness:
  "speaking (fake_activity ''speaking'')
   \<and> ignored_words (init (Some [''uh'', ''[noise]''])) \<noteq> []
   \<and> raw_tokens no_split_words ''Uh, [Noise]!'' = py_split ''Uh, [Noise]!''
   \<and> py_split ''Uh, [Noise]!'' = [''Uh,'', ''[Noise]!'']
   \<and> list_all (\<lambda>tok. norm_token tok \<in> ignored_set (init (Some [''uh'', ''[noise]''])))
        (py_split ''Uh, [Noise]!'')
   \<and> decision_of (wrapper (init (Some [''uh'', ''[noise]''])) (fake_activity ''speaking'')
        no_split_words forwarded (Ev ''Uh, [Noise]!'')) = Suppress
   \<and> list_ex (\<lambda>tok. norm_token tok \<notin> ignored_set (init (Some [''uh'', ''[noise]''])))
        (py_split ''umm stop'')
   \<and> decision_of (wrapper (init (Some [''uh'', ''[noise]''])) (fake_activity ''speaking'')
        no_split_words forwarded (Ev ''umm stop'')) = Forward"
proof -
  let ?f = "init (Some [''uh'', ''[noise]''])"
  have 1: "speaking (fake_activity ''speaking'')" by code_simp
  have 2: "ignored_words ?f \<noteq> []" by code_simp
  have 3: "transcript (Ev t) = Some (PyStr t)" for t by (simp add: Ev_def)
  have 4: "raw_tokens no_split_words t = py_split t" for t
    by (simp add: raw_tokens_def no_split_words_def)
  have 5: "py_split ''Uh, [Noise]!'' = [''Uh,'', ''[Noise]!'']" by code_simp
  have 6: "list_all (\<lambda>tok. norm_token tok \<in> ignored_set ?f) (py_split ''Uh, [Noise]!'')"
    by code_simp
  have 7: "list_ex (\<lambda>tok. norm_token tok \<notin> ignored_set ?f) (py_split ''umm stop'')"
    by code_simp
  show ?thesis
    using 1 2 4 5 6 7
      wrapper_all_fillers_suppress[OF 1 2 3 4, of "''Uh, [Noise]!''" forwarded]
      wrapper_all_fillers_suppress[OF 1 2 3 4, of "''umm stop''" forwarded]
    by simp
qed

text \<open>
  C2: for every transcript string and vocabulary, when the agent is not speaking, or the
  vocabulary is empty, or the transcript is empty or made of whitespace only, the wrapper
  forwards: its only effect is the call of the original handler with the event, whose
  result it returns.
\<close>

theorem wrapper_forward_when_idle:
  assumes "transcript ev = Some (PyStr t)"
    and "\<not> speaking a \<or> ignored_words f = [] \<or> list_all isspace t"
  shows "decision_of (wrapper f a sw orig ev) = Forward
         \<and> effects (wrapper f a sw orig ev) = [CallOrig ev]
         \<and> result (wrapper f a sw orig ev) = map_sum id Some (orig ev)"
proof -
  from assms have "try_body f a sw ev = Inr ([], False)"
    by (auto simp: try_body_str py_strip_Nil_iff)
  then have "wrapper f a sw orig ev =
      \<lparr>effects = [CallOrig ev], result = map_sum id Some (orig ev)\<rparr>"
    by (rule forwarded_outcome)
  then show ?thesis by (simp add: decision_of_def)
qed

theorem wrapper_forward_when_idle_witness:
  "\<not> speaking (fake_activity ''listening'')
   \<and> decision_of (wrapper default_filter (fake_activity ''listening'')
        no_split_words forwarded (Ev ''umm'')) = Forward
   \<and> ignored_words (init (Some [])) = []
   \<and> decision_of (wrapper (init (Some [])) (fake_activity ''speaking'')
        no_split_words forwarded (Ev ''uh'')) = Forward
   \<and> list_all isspace ''  ''
   \<and> effects (wrapper default_filter (fake_activity ''speaking'')
        no_split_words forwarded (Ev ''  '')) = [CallOrig (Ev ''  '')]"
proof -
  have 1: "\<not> speaking (fake_activity ''listening'')" by code_simp
  have 2: "ignored_words (init (Some [])) = []" by code_simp
  have 3: "list_all isspace ''  ''" by code_simp
  have t: "transcript (Ev t) = Some (PyStr t)" for t by (simp add: Ev_def)
  let ?d = "default_filter"
  show ?thesis
    using 1 2 3
      wrapper_forward_when_idle[OF t, of "fake_activity ''listening''" ?d "''umm''"
        no_split_words forwarded]
      wrapper_forward_when_idle[OF t, of "fake_activity ''speaking''" "init (Some [])" "''uh''"
        no_split_words forwarded]
      wrapper_forward_when_idle[OF t, of "fake_activity ''speaking''" ?d "''  ''"
        no_split_words forwarded]
    by simp
qed




text \<open>
  C4: an outcome that suppresses has called \<open>emit("agent_false_interruption")\<close> exactly
  once and returns without an exception; an outcome that forwards has not called it; and
  whether \<open>emit\<close> raises does not change the decision.
\<close>

theorem notification_exactly_once:
  "(decision_of (wrapper f a sw orig ev) = Suppress \<longrightarrow>
      notifications (wrapper f a sw orig ev) = 1 \<and> result (wrapper f a sw orig ev) = Inr None)
   \<and> (decision_of (wrapper f a sw orig ev) = Forward \<longrightarrow>
      notifications (wrapper f a sw orig ev) = 0)
   \<and> (session a = Some s \<longrightarrow>
      decision_of (wrapper f (a\<lparr>session := Some (s\<lparr>emit_raises := r\<rparr>)\<rparr>) sw orig ev) =
      decision_of (wrapper f a sw orig ev))"
proof -
  let ?out = "wrapper f a sw orig ev"
  have 1: "decision_of ?out = Suppress \<longrightarrow> notifications ?out = 1 \<and> result ?out = Inr None"
    using try_body_cases[of f a sw ev] emit_count[of a]
    by (auto simp: raised_outcome forwarded_outcome suppressed_outcome decision_of_def
          notifications_def)
  have 2: "decision_of ?out = Forward \<longrightarrow> notifications ?out = 0"
    using try_body_cases[of f a sw ev] emit_count[of a]
    by (auto simp: raised_outcome forwarded_outcome suppressed_outcome decision_of_def
          notifications_def)
  have 3: "session a = Some s \<longrightarrow>
      decision_of (wrapper f (a\<lparr>session := Some (s\<lparr>emit_raises := r\<rparr>)\<rparr>) sw orig ev) =
      decision_of ?out"
    by (auto simp: wrapper_def try_body_def transcript_text_def Let_def speaking_def
          decision_of_def emit_false_interruption_def
          split: option.splits pyval.splits)
  from 1 2 3 show ?thesis by blast
qed

theorem notification_exactly_once_witness:
  "decision_of (wrapper default_filter (fake_activity ''speaking'')
      no_split_words forwarded (Ev ''uh'')) = Suppress
   \<and> notifications (wrapper default_filter (fake_activity ''speaking'')
      no_split_words forwarded (Ev ''uh'')) = 1
   \<and> result (wrapper default_filter (fake_activity ''speaking'')
      no_split_words forwarded (Ev ''uh'')) = Inr None
   \<and> decision_of (wrapper default_filter (fake_activity ''speaking'')
      no_split_words forwarded (Ev ''umm stop'')) = Forward
   \<and> notifications (wrapper default_filter (fake_activity ''speaking'')
      no_split_words forwarded (Ev ''umm stop'')) = 0
   \<and> session (fake_activity ''speaking'') = Some (fake_session ''speaking'')
   \<and> decision_of (wrapper default_filter
      ((fake_activity ''speaking'')
         \<lparr>session := Some ((fake_session ''speaking'')
            \<lparr>emit_raises := Some (OtherException ''boom'')\<rparr>)\<rparr>)
      no_split_words forwarded (Ev ''uh'')) = Suppress"
proof -
  let ?d = "default_filter"
  let ?a = "fake_activity ''speaking''"
  have 1: "decision_of (wrapper ?d ?a no_split_words forwarded (Ev ''uh'')) = Suppress"
    by code_simp
  have 2: "decision_of (wrapper ?d ?a no_split_words forwarded (Ev ''umm stop'')) = Forward"
    by code_simp
  have 3: "session ?a = Some (fake_session ''speaking'')"
    by (simp add: fake_activity_def)
  note s = notification_exactly_once[of ?d ?a no_split_words forwarded "Ev ''uh''"
      "fake_session ''speaking''" "Some (OtherException ''boom'')"]
  note f = notification_exactly_once[of ?d ?a no_split_words forwarded "Ev ''umm stop''"
      "fake_session ''speaking''" None]
  from s 1 have a: "notifications (wrapper ?d ?a no_split_words forwarded (Ev ''uh'')) = 1"
    "result (wrapper ?d ?a no_split_words forwarded (Ev ''uh'')) = Inr None"
    by blast+
  from f 2 have b: "notifications (wrapper ?d ?a no_split_words forwarded (Ev ''umm stop'')) = 0"
    by blast
  from s 3 1 have c: "decision_of (wrapper ?d
      (?a\<lparr>session := Some ((fake_session ''speaking'')
            \<lparr>emit_raises := Some (OtherException ''boom'')\<rparr>)\<rparr>)
      no_split_words forwarded (Ev ''uh'')) = Suppress"
    by metis
  from 1 2 3 a b c show ?thesis by blast
qed

text \<open>
  C9: an event whose transcript is \<open>None\<close> is handled as one whose transcript is the empty
  string, and is forwarded; an activity without a session, or whose session's state is
  not the string \<open>"speaking"\<close>, always forwards, calls the original handler with the event
  and never notifies.
\<close>

theorem wrapper_degenerate_forward:
  "(transcript ev = Some PyNone \<longrightarrow>
      try_body f a sw ev = try_body f a sw (ev\<lparr>transcript := Some (PyStr [])\<rparr>)
      \<and> decision_of (wrapper f a sw orig ev) = Forward
      \<and> effects (wrapper f a sw orig ev) = [CallOrig ev]
      \<and> result (wrapper f a sw orig ev) = map_sum id Some (orig ev))
   \<and> (session a = None \<or> (\<exists>s. session a = Some s \<and> agent_state s \<noteq> Some ''speaking'') \<longrightarrow>
      decision_of (wrapper f a sw orig ev) = Forward
      \<and> notifications (wrapper f a sw orig ev) = 0
      \<and> effects (wrapper f a sw orig ev) =
          (if transcript ev = None then [LogException AttributeError, CallOrig ev]
           else [CallOrig ev])
      \<and> result (wrapper f a sw orig ev) = map_sum id Some (orig ev))"
proof -
  have e: "py_strip [] = []" by (simp add: py_strip_def strip_by_def)
  have 1: "transcript ev = Some PyNone \<longrightarrow>
      try_body f a sw ev = try_body f a sw (ev\<lparr>transcript := Some (PyStr [])\<rparr>)
      \<and> try_body f a sw ev = Inr ([], False)"
    by (simp add: try_body_def transcript_text_def e)
  have 2: "session a = None \<or> (\<exists>s. session a = Some s \<and> agent_state s \<noteq> Some ''speaking'')
      \<longrightarrow> \<not> speaking a"
    by (auto simp: speaking_def)
  show ?thesis
    using 1 2 try_body_not_speaking[of a f sw ev]
    by (auto simp: forwarded_outcome raised_outcome decision_of_def notifications_def)
qed

theorem wrapper_degenerate_forward_witness:
  "transcript \<lparr>transcript = Some PyNone, is_final = True, item_id = None\<rparr> = Some PyNone
   \<and> effects (wrapper default_filter (fake_activity ''speaking'')
        no_split_words forwarded \<lparr>transcript = Some PyNone, is_final = True, item_id = None\<rparr>) =
       [CallOrig \<lparr>transcript = Some PyNone, is_final = True, item_id = None\<rparr>]
   \<and> session \<lparr>session = None, handler_attr = Some (Host 0)\<rparr> = None
   \<and> decision_of (wrapper default_filter
        \<lparr>session = None, handler_attr = Some (Host 0)\<rparr>
        no_split_words forwarded (Ev ''uh'')) = Forward
   \<and> session (fake_activity ''thinking'') = Some (fake_session ''thinking'')
   \<and> agent_state (fake_session ''thinking'') \<noteq> Some ''speaking''
   \<and> notifications (wrapper default_filter (fake_activity ''thinking'')
        no_split_words forwarded (Ev ''uh'')) = 0
   \<and> effects (wrapper default_filter (fake_activity ''thinking'')
        no_split_words forwarded (Ev ''uh'')) = [CallOrig (Ev ''uh'')]"
proof -
  let ?d = "default_filter"
  let ?n = "\<lparr>transcript = Some PyNone, is_final = True, item_id = None\<rparr>"
  let ?a0 = "\<lparr>session = None, handler_attr = Some (Host 0)\<rparr>"
  have 1: "transcript ?n = Some PyNone" by simp
  have 2: "session ?a0 = None" by simp
  have 3: "session (fake_activity ''thinking'') = Some (fake_session ''thinking'')"
    by (simp add: fake_activity_def)
  have 4: "agent_state (fake_session ''thinking'') \<noteq> Some ''speaking''"
    by (simp add: fake_session_def)
  have 5: "transcript (Ev ''uh'') \<noteq> None" by (simp add: Ev_def)
  note a = wrapper_degenerate_forward[of ?n ?d "fake_activity ''speaking''" no_split_words
      forwarded, THEN conjunct1, THEN mp, OF 1]
  note b = wrapper_degenerate_forward[of "Ev ''uh''" ?d ?a0 no_split_words
      forwarded, THEN conjunct2, THEN mp, OF disjI1, OF 2]
  have "\<exists>s. session (fake_activity ''thinking'') = Some s \<and> agent_state s \<noteq> Some ''speaking''"
    using 3 4 by blast
  note c = wrapper_degenerate_forward[of "Ev ''uh''" ?d "fake_activity ''thinking''" no_split_words
      forwarded, THEN conjunct2, THEN mp, OF disjI2, OF this]
  from 1 2 3 4 5 a b c show ?thesis by simp
qed

lemma comprehension_map_filter: "[g w. w \<leftarrow> ws, P w] = map g (filter P ws)"
  by (induction ws) simp_all

section \<open>Updating the vocabulary\<close>

text \<open>
  C6, as stated, at a concrete input: \<open>set_ignored_words\<close> given \<open>["uh", "UH ", " "]\<close>
  stores the list \<open>["uh", "uh", ""]\<close>, which holds a duplicate and the empty string; and
  constructing a filter from a word list raises \<open>TypeError\<close>.
\<close>

theorem set_ignored_words_keeps_duplicates_and_blanks:
  "ignored_words (set_ignored_words \<lparr>ignored_words = [], orig_handler_map = Map.empty\<rparr>
      [''uh'', ''UH '', '' '']) = [''uh'', ''uh'', []]
   \<and> \<not> distinct (ignored_words (set_ignored_words
      \<lparr>ignored_words = [], orig_handler_map = Map.empty\<rparr> [''uh'', ''UH '', '' '']))
   \<and> [] \<in> set (ignored_words (set_ignored_words
      \<lparr>ignored_words = [], orig_handler_map = Map.empty\<rparr> [''uh'', ''UH '', '' '']))
   \<and> construct [''uh'', ''UH '', '' ''] = Inl TypeError"
  by (simp add: construct_def) code_simp

text \<open>
  C6, amended: \<open>set_ignored_words\<close> stores a list; its non-empty entries are the given
  words that are not blank, trimmed and lowercased, in the order given and with duplicates
  kept. Duplicates collapse in the set that the wrapper builds from the list: apart from
  the empty string, that set is the set of the normalised non-blank words. The handler map
  is left alone, no error is raised, and an empty sequence gives an empty vocabulary, after
  which every decision is Forward.
\<close>

theorem set_ignored_words_stores_list:
  "filter (\<lambda>w. w \<noteq> []) (ignored_words (set_ignored_words f ws)) =
     map (\<lambda>w. py_lower (py_strip w)) (filter (\<lambda>w. py_strip w \<noteq> []) ws)
   \<and> ignored_set (set_ignored_words f ws) - {[]} =
     norm_word ` {w \<in> set ws. py_strip w \<noteq> []} - {[]}
   \<and> orig_handler_map (set_ignored_words f ws) = orig_handler_map f
   \<and> ignored_words (set_ignored_words f []) = []
   \<and> decision_of (wrapper (set_ignored_words f []) a sw orig ev) = Forward"
proof -
  let ?stored = "[py_lower (py_strip w). w \<leftarrow> ws, w \<noteq> []]"
  have stored: "ignored_words (set_ignored_words f ws) = ?stored"
    by (simp add: set_ignored_words_def)
  have e: "py_strip [] = []" by (simp add: py_strip_def strip_by_def)
  have "map norm_word ?stored = map norm_word (filter (\<lambda>w. w \<noteq> []) ws)"
    by (simp add: comprehension_map_filter norm_word_lower_strip)
  then have "set (map norm_word ?stored) = norm_word ` {w \<in> set ws. w \<noteq> []}"
    by simp
  also have "\<dots> - {[]} = norm_word ` {w \<in> set ws. py_strip w \<noteq> []} - {[]}"
    using e by (auto simp: norm_word_blank)
  finally have sets: "set (map norm_word ?stored) - {[]} =
      norm_word ` {w \<in> set ws. py_strip w \<noteq> []} - {[]}" .
  have empty: "ignored_words (set_ignored_words f []) = []"
    by (simp add: set_ignored_words_def)
  show ?thesis
    using sets empty
    by (simp add: stored stored_words_nonempty ignored_set_def empty_vocab_forward)
      (simp add: set_ignored_words_def)
qed

section \<open>The vocabulary from the environment\<close>

text \<open>
  C7, on the code: with the variable unset, \<open>from_env\<close> computes the nineteen built-in
  entries as \<open>parts\<close> and then raises \<open>TypeError\<close> at \<open>cls(parts)\<close>, where the claim has it
  return, without ever raising, a filter that holds this vocabulary.
\<close>

theorem from_env_default_raises:
  "from_env Map.empty default_env_var = Inl TypeError
   \<and> default_env_var = ''LIVEKIT_IGNORED_WORDS''
   \<and> from_env_parts Map.empty default_env_var =
        [''uh'', ''umm'', ''hmm'', ''err'', ''ah'', ''like'', ''you know'',
         ''mm'', ''mhm'', ''mmm'',
         ''[noise]'', ''[background]'', ''[inaudible]'', ''[laugh]'', ''[cough]'', ''[breath]'',
         ''<noise>'', ''<silence>'', ''<background>'']"
  by (simp add: from_env_def construct_def) code_simp

text \<open>
  C10, on the code: with the variable set to \<open>", ,,"\<close>, \<open>from_env\<close> does not use the built-in
  list and computes the empty list as \<open>parts\<close>, and then raises \<open>TypeError\<close> at \<open>cls(parts)\<close>,
  where the claim has it produce a filter with an empty vocabulary.
\<close>

theorem from_env_separators_raises:
  "from_env [default_env_var \<mapsto> '', ,,''] default_env_var = Inl TypeError
   \<and> from_env_parts [default_env_var \<mapsto> '', ,,''] default_env_var = []"
  by (simp add: from_env_def construct_def) code_simp

section \<open>Attaching and detaching a filter\<close>

text \<open>
  C8: attaching is idempotent and detaching undoes it. A second \<open>attach_to_activity\<close> on
  an activity the filter is attached to changes nothing; for an activity the filter is not
  attached to and that has a handler, \<open>attach_to_activity\<close> installs the wrapper around
  that handler, and \<open>detach_from_activity\<close> afterwards puts back that very handler and
  leaves filter and activities as they were before attaching.
\<close>

theorem attach_idempotent_detach_inverse:
  "(attach_to_activity w a = Inr w' \<longrightarrow> attach_to_activity w' a = Inr w')
   \<and> (orig_handler_map (the_filter w) a = None \<and> handler_attr (activities w a) = Some h \<longrightarrow>
        (\<exists>w1. attach_to_activity w a = Inr w1
           \<and> handler_attr (activities w1 a) = Some (Wrapper a h)
           \<and> orig_handler_map (the_filter w1) a = Some h
           \<and> handler_attr (activities (detach_from_activity w1 a) a) = Some h
           \<and> detach_from_activity w1 a = w))"
proof -
  have 1: "attach_to_activity w a = Inr w' \<longrightarrow> attach_to_activity w' a = Inr w'"
    by (auto simp: attach_to_activity_def split: option.splits)
  have 2: "\<exists>w1. attach_to_activity w a = Inr w1
           \<and> handler_attr (activities w1 a) = Some (Wrapper a h)
           \<and> orig_handler_map (the_filter w1) a = Some h
           \<and> handler_attr (activities (detach_from_activity w1 a) a) = Some h
           \<and> detach_from_activity w1 a = w"
    if m: "orig_handler_map (the_filter w) a = None"
      and h: "handler_attr (activities w a) = Some h"
  proof -
    let ?w1 = "\<lparr>the_filter = (the_filter w)
                      \<lparr>orig_handler_map := (orig_handler_map (the_filter w))(a \<mapsto> h)\<rparr>,
                    activities = (activities w)
                      (a := (activities w a)\<lparr>handler_attr := Some (Wrapper a h)\<rparr>)\<rparr>"
    have att: "attach_to_activity w a = Inr ?w1"
      using m h by (simp add: attach_to_activity_def)
    have map_back: "(orig_handler_map (the_filter w))(a := None) = orig_handler_map (the_filter w)"
      using m by (metis fun_upd_triv)
    have act_back: "(activities w a)\<lparr>handler_attr := Some h\<rparr> = activities w a"
      using h by simp
    have det: "detach_from_activity ?w1 a = w"
      by (simp add: detach_from_activity_def map_back act_back)
    show ?thesis
      using att det h by simp
  qed
  from 1 2 show ?thesis by blast
qed

theorem attach_idempotent_detach_inverse_witness:
  "orig_handler_map (the_filter \<lparr>the_filter = init None, activities = (\<lambda>_. fake_activity ''speaking'')\<rparr>) 0 = None
   \<and> handler_attr (activities \<lparr>the_filter = init None, activities = (\<lambda>_. fake_activity ''speaking'')\<rparr> 0) = Some (Host 0)
   \<and> (\<exists>w1. attach_to_activity \<lparr>the_filter = init None, activities = (\<lambda>_. fake_activity ''speaking'')\<rparr> 0 = Inr w1
         \<and> attach_to_activity w1 0 = Inr w1
         \<and> handler_attr (activities w1 0) = Some (Wrapper 0 (Host 0))
         \<and> handler_attr (activities (detach_from_activity w1 0) 0) = Some (Host 0)
         \<and> detach_from_activity w1 0 = \<lparr>the_filter = init None, activities = (\<lambda>_. fake_activity ''speaking'')\<rparr>)"
proof -
  let ?w = "\<lparr>the_filter = init None, activities = (\<lambda>_. fake_activity ''speaking'')\<rparr>"
  have 1: "orig_handler_map (the_filter ?w) 0 = None"
    by (simp add: init_def)
  have 2: "handler_attr (activities ?w 0) = Some (Host 0)"
    by (simp add: fake_activity_def)
  from attach_idempotent_detach_inverse[of ?w 0 _ "Host 0", THEN conjunct2] 1 2
  obtain w1 where w1: "attach_to_activity ?w 0 = Inr w1"
      "handler_attr (activities w1 0) = Some (Wrapper 0 (Host 0))"
      "handler_attr (activities (detach_from_activity w1 0) 0) = Some (Host 0)"
      "detach_from_activity w1 0 = ?w"
    by blast
  from attach_idempotent_detach_inverse[of ?w 0 w1, THEN conjunct1] w1(1)
  have "attach_to_activity w1 0 = Inr w1" by blast
  with 1 2 w1 show ?thesis by blast
qed

end
